theory Spec2Isabelle
  imports Complex_Main "HOL-Library.AList" "HOL-Library.Multiset"
begin

unbundle bit_operations_syntax

section \<open>JavaScript numbers and strings\<close>

text \<open>
  A JavaScript number is modelled as an exact real, or \<open>None\<close> for NaN: the rounding of
  IEEE doubles, the infinities and the sign of zero are outside the model. A string is a
  list of 8-bit characters (the Latin-1 code units); \<open>length\<close> is the \<open>.length\<close> of
  the string.
\<close>

type_synonym number = "real option"

definition num_lt :: "number \<Rightarrow> number \<Rightarrow> bool" where
  \<comment> \<open>\<open>a < b\<close>: false when either side is NaN\<close>
  "num_lt a b = (case (a, b) of (Some x, Some y) \<Rightarrow> x < y | _ \<Rightarrow> False)"

definition num_gt :: "number \<Rightarrow> number \<Rightarrow> bool" where
  \<comment> \<open>\<open>a > b\<close>\<close>
  "num_gt a b = (case (a, b) of (Some x, Some y) \<Rightarrow> x > y | _ \<Rightarrow> False)"

definition num_le :: "number \<Rightarrow> number \<Rightarrow> bool" where
  \<comment> \<open>\<open>a <= b\<close>\<close>
  "num_le a b = (case (a, b) of (Some x, Some y) \<Rightarrow> x \<le> y | _ \<Rightarrow> False)"

definition num_op :: "(real \<Rightarrow> real \<Rightarrow> real) \<Rightarrow> number \<Rightarrow> number \<Rightarrow> number" where
  \<comment> \<open>a binary arithmetic operator: NaN when an operand is NaN\<close>
  "num_op f a b = (case (a, b) of (Some x, Some y) \<Rightarrow> Some (f x y) | _ \<Rightarrow> None)"

definition toLowerCase_char :: "char \<Rightarrow> char" where
  \<comment> \<open>\<open>String.prototype.toLowerCase\<close> on one Latin-1 code unit: A-Z, and the accented
      capitals 0xC0-0xDE other than the multiplication sign 0xD7, move up by 32\<close>
  "toLowerCase_char c =
     (let n = of_char c :: nat
      in if (65 \<le> n \<and> n \<le> 90) \<or> (192 \<le> n \<and> n \<le> 222 \<and> n \<noteq> 215)
         then char_of (n + 32) else c)"

definition toLowerCase :: "string \<Rightarrow> string" where
  "toLowerCase s = map toLowerCase_char s"

section \<open>The geohash codec (geohash.utils.ts)\<close>

definition BASE32_CODES :: string where
  "BASE32_CODES = ''0123456789bcdefghjkmnpqrstuvwxyz''"

definition BASE32_CODES_DICT :: "string \<rightharpoonup> nat" where
  \<comment> \<open>the loop \<open>BASE32_CODES_DICT[BASE32_CODES.charAt(i)] = i\<close>; a key that was never
      stored reads as \<open>undefined\<close>, here \<open>None\<close>\<close>
  "BASE32_CODES_DICT =
     fold (\<lambda>i dict. dict([BASE32_CODES ! i] \<mapsto> i)) [0 ..< length BASE32_CODES] Map.empty"

record intervals =
  maxLat :: real
  minLat :: real
  maxLon :: real
  minLon :: real

record dec_state = intervals +
  isLon :: bool

definition bit_of :: "nat option \<Rightarrow> nat \<Rightarrow> nat" where
  \<comment> \<open>\<open>(hashValue >> bits) & 1\<close>; \<open>undefined >> bits\<close> is 0\<close>
  "bit_of hashValue bits =
     (case hashValue of None \<Rightarrow> 0 | Some v \<Rightarrow> (drop_bit bits v) AND 1)"

definition decode_bit :: "nat option \<Rightarrow> nat \<Rightarrow> dec_state \<Rightarrow> dec_state" where
  \<comment> \<open>the body of the inner loop of \<open>decode_bbox\<close>\<close>
  "decode_bit hashValue bits s =
     (let bit = bit_of hashValue bits;
          s' = (if isLon s then
                  (let mid = (maxLon s + minLon s) / 2
                   in if bit = 1 then s\<lparr>minLon := mid\<rparr> else s\<lparr>maxLon := mid\<rparr>)
                else
                  (let mid = (maxLat s + minLat s) / 2
                   in if bit = 1 then s\<lparr>minLat := mid\<rparr> else s\<lparr>maxLat := mid\<rparr>))
      in s'\<lparr>isLon := \<not> isLon s'\<rparr>)"

definition decode_char :: "char \<Rightarrow> dec_state \<Rightarrow> dec_state" where
  \<comment> \<open>the body of the outer loop of \<open>decode_bbox\<close>, for the character \<open>hash_string[i]\<close>\<close>
  "decode_char c s =
     (let code = toLowerCase [c];
          hashValue = BASE32_CODES_DICT code
      in fold (decode_bit hashValue) [4, 3, 2, 1, 0] s)"

definition decode_init :: dec_state where
  "decode_init = \<lparr>maxLat = 90, minLat = -90, maxLon = 180, minLon = -180, isLon = True\<rparr>"

definition decode_bbox :: "string \<Rightarrow> real list" where
  "decode_bbox hash_string =
     (let s = fold decode_char hash_string decode_init
      in [minLat s, minLon s, maxLat s, maxLon s])"

datatype error = TypeError | Error string | QueryFailure

datatype jsval =
    JUndefined
  | JNull
  | JBoolean bool
  | JNumber number
  | JString string
  | JObject "(string \<times> jsval) list"

text \<open>
  \<open>ToNumber\<close>, applied by the arithmetic and comparison operators. The numeric value of a
  string is the parameter \<open>StringToNumber\<close>; a plain object converts to NaN.
\<close>

fun toNumber :: "(string \<Rightarrow> number) \<Rightarrow> jsval \<Rightarrow> number" where
  "toNumber StringToNumber JUndefined = None"
| "toNumber StringToNumber JNull = Some 0"
| "toNumber StringToNumber (JBoolean b) = Some (if b then 1 else 0)"
| "toNumber StringToNumber (JNumber n) = n"
| "toNumber StringToNumber (JString s) = StringToNumber s"
| "toNumber StringToNumber (JObject props) = None"

fun split :: "char \<Rightarrow> string \<Rightarrow> string list" where
  \<comment> \<open>\<open>String.prototype.split\<close> with a one-character separator\<close>
  "split sep [] = [[]]"
| "split sep (c # cs) =
     (if c = sep then [] # split sep cs
      else (case split sep cs of [] \<Rightarrow> [[c]] | p # ps \<Rightarrow> (c # p) # ps))"

definition SIGFIG_HASH_LENGTH :: "nat list" where
  "SIGFIG_HASH_LENGTH = [0, 5, 7, 8, 11, 12, 13, 15, 16, 17, 18]"

record enc_state = intervals +
  chars :: "string list"
  bits :: nat
  bitsTotal :: nat
  hash_value :: nat

definition code_at :: "nat \<Rightarrow> string" where
  \<comment> \<open>\<open>BASE32_CODES[hash_value]\<close>; an index out of range reads \<open>undefined\<close>, which
      \<open>join\<close> renders as the empty string\<close>
  "code_at i = (if i < length BASE32_CODES then [BASE32_CODES ! i] else [])"

definition encode_body :: "number \<Rightarrow> number \<Rightarrow> enc_state \<Rightarrow> enc_state" where
  \<comment> \<open>the body of the while loop of \<open>encode\<close>; \<open>hash_value\<close> stays below 32, so
      \<open>hash_value << 1\<close> is a doubling\<close>
  "encode_body latitude longitude s =
     (let s1 = (if bitsTotal s mod 2 = 0 then
                  (let mid = (maxLon s + minLon s) / 2
                   in if num_gt longitude (Some mid)
                      then s\<lparr>hash_value := push_bit 1 (hash_value s) + 1, minLon := mid\<rparr>
                      else s\<lparr>hash_value := push_bit 1 (hash_value s) + 0, maxLon := mid\<rparr>)
                else
                  (let mid = (maxLat s + minLat s) / 2
                   in if num_gt latitude (Some mid)
                      then s\<lparr>hash_value := push_bit 1 (hash_value s) + 1, minLat := mid\<rparr>
                      else s\<lparr>hash_value := push_bit 1 (hash_value s) + 0, maxLat := mid\<rparr>));
          s2 = s1\<lparr>bits := bits s1 + 1, bitsTotal := bitsTotal s1 + 1\<rparr>
      in if bits s2 = 5
         then s2\<lparr>chars := chars s2 @ [code_at (hash_value s2)], bits := 0, hash_value := 0\<rparr>
         else s2)"

text \<open>
  The while loop of \<open>encode\<close>. From a state that the function itself never builds (more
  than five pending bits) the loop would not end, so the result is an option: \<open>None\<close>
  stands for a loop that does not return.
\<close>

partial_function (option) encode_loop ::
  "number \<Rightarrow> number \<Rightarrow> number \<Rightarrow> enc_state \<Rightarrow> enc_state option" where
  "encode_loop latitude longitude numberOfChars s =
     (if num_lt (Some (real (length (chars s)))) numberOfChars
      then encode_loop latitude longitude numberOfChars (encode_body latitude longitude s)
      else Some s)"

declare encode_loop.simps [code]

definition encode_init :: enc_state where
  "encode_init = \<lparr>maxLat = 90, minLat = -90, maxLon = 180, minLon = -180,
                   chars = [], bits = 0, bitsTotal = 0, hash_value = 0\<rparr>"

definition encode_hash :: "number \<Rightarrow> number \<Rightarrow> number \<Rightarrow> string option" where
  \<comment> \<open>\<open>encode\<close> from \<open>const chars = []\<close> on (lines 47-87), the coordinates and
      \<open>numberOfChars\<close> being numbers\<close>
  "encode_hash latitude longitude numberOfChars =
     map_option (\<lambda>s. concat (chars s))
       (encode_loop latitude longitude numberOfChars encode_init)"

definition decSigFigs :: "jsval \<Rightarrow> error + nat" where
  \<comment> \<open>\<open>x.split(".")[1].length\<close>: only a string has \<open>split\<close>, and reading \<open>length\<close> of
      the \<open>undefined\<close> second piece is a TypeError\<close>
  "decSigFigs x =
     (case x of
        JString s \<Rightarrow> (case split (CHR ''.'') s of _ # p # _ \<Rightarrow> Inr (length p) | _ \<Rightarrow> Inl TypeError)
      | _ \<Rightarrow> Inl TypeError)"

definition typeof_number :: "jsval \<Rightarrow> bool" where
  "typeof_number x = (case x of JNumber _ \<Rightarrow> True | _ \<Rightarrow> False)"

definition ENCODE_AUTO :: string where
  "ENCODE_AUTO = ''auto''"

definition encode ::
  "(string \<Rightarrow> number) \<Rightarrow> jsval \<Rightarrow> jsval \<Rightarrow> jsval \<Rightarrow> (error + string) option" where
  "encode StringToNumber latitude longitude numberOfChars =
     (let run = (\<lambda>n. map_option Inr
                   (encode_hash (toNumber StringToNumber latitude)
                      (toNumber StringToNumber longitude) (toNumber StringToNumber n)))
      in if numberOfChars = JString ENCODE_AUTO then
           (if typeof_number latitude \<or> typeof_number longitude
            then Some (Inl (Error ''string notation required for auto precision.''))
            else (case decSigFigs latitude of
                    Inl e \<Rightarrow> Some (Inl e)
                  | Inr decSigFigsLat \<Rightarrow>
                     (case decSigFigs longitude of
                        Inl e \<Rightarrow> Some (Inl e)
                      | Inr decSigFigsLong \<Rightarrow>
                         (let numberOfSigFigs = max decSigFigsLat decSigFigsLong
                          in run (if numberOfSigFigs < length SIGFIG_HASH_LENGTH
                                  then JNumber (Some (real (SIGFIG_HASH_LENGTH ! numberOfSigFigs)))
                                  else JUndefined)))))
         else if numberOfChars = JUndefined then run (JNumber (Some 9))
         else run numberOfChars)"

record latlon =
  latitude :: real
  longitude :: real

record decoded = latlon +
  error :: latlon

definition decode :: "string \<Rightarrow> decoded" where
  "decode hashString =
     (let bbox = decode_bbox hashString;
          lat = (bbox ! 0 + bbox ! 2) / 2;
          lon = (bbox ! 1 + bbox ! 3) / 2;
          latErr = bbox ! 2 - lat;
          lonErr = bbox ! 3 - lon
      in \<lparr>latitude = lat, longitude = lon,
          error = \<lparr>latitude = latErr, longitude = lonErr\<rparr>\<rparr>)"

definition neighbors :: "string \<Rightarrow> string list option" where
  "neighbors hash_string =
     (let hashstringLength = length hash_string;
          lonlat = decode hash_string;
          lat = latitude lonlat;
          lon = longitude lonlat;
          latErr = latitude (error lonlat) * 2;
          lonErr = longitude (error lonlat) * 2;
          encodeNeighbor = (\<lambda>neighborLatDir neighborLonDir.
             (let neighbor_lat = lat + neighborLatDir * latErr;
                  neighbor_lon = lon + neighborLonDir * lonErr
              in encode_hash (Some neighbor_lat) (Some neighbor_lon)
                   (Some (real hashstringLength))))
      in those [encodeNeighbor 1 0, encodeNeighbor 1 1, encodeNeighbor 0 1,
                encodeNeighbor (-1) 1, encodeNeighbor (-1) 0, encodeNeighbor (-1) (-1),
                encodeNeighbor 0 (-1), encodeNeighbor 1 (-1)])"

section \<open>Precision and distance (geohash.utils.ts)\<close>

definition setPrecision :: "number \<Rightarrow> nat" where
  \<comment> \<open>\<open>switch (true)\<close>: the first case whose comparison is true\<close>
  "setPrecision km =
     (if num_le km (Some 0.00477) then 9
      else if num_le km (Some 0.0382) then 8
      else if num_le km (Some 0.153) then 7
      else if num_le km (Some 1.22) then 6
      else if num_le km (Some 4.89) then 5
      else if num_le km (Some 39.1) then 4
      else if num_le km (Some 156) then 3
      else if num_le km (Some 1250) then 2
      else 1)"

definition EARTH_RADIUS :: real where
  "EARTH_RADIUS = 6371008.8"

definition js_rem :: "real \<Rightarrow> real \<Rightarrow> real" where
  \<comment> \<open>the operator \<open>%\<close> on finite numbers: the quotient is truncated towards zero\<close>
  "js_rem x y =
     (let q = x / y
      in x - y * of_int (if 0 \<le> q then \<lfloor>q\<rfloor> else \<lceil>q\<rceil>))"

definition degreesToRadians :: "number \<Rightarrow> number" where
  "degreesToRadians degrees =
     (let radians = map_option (\<lambda>d. js_rem d 360) degrees
      in num_op (/) (num_op (*) radians (Some pi)) (Some 180))"

definition radiansToKmLength :: "number \<Rightarrow> number" where
  "radiansToKmLength radians = num_op (*) radians (Some (EARTH_RADIUS / 1000))"

definition Math_sqrt :: "number \<Rightarrow> number" where
  \<comment> \<open>NaN below zero\<close>
  "Math_sqrt x = (case x of None \<Rightarrow> None | Some r \<Rightarrow> if r < 0 then None else Some (sqrt r))"

definition atan2 :: "real \<Rightarrow> real \<Rightarrow> real" where
  "atan2 y x =
     (if 0 < x then arctan (y / x)
      else if x < 0 then (if 0 \<le> y then arctan (y / x) + pi else arctan (y / x) - pi)
      else if 0 < y then pi / 2
      else if y < 0 then - (pi / 2)
      else 0)"

definition Math_atan2 :: "number \<Rightarrow> number \<Rightarrow> number" where
  "Math_atan2 y x = num_op atan2 y x"

definition flip :: "'a \<times> 'b \<Rightarrow> 'b \<times> 'a" where
  \<comment> \<open>\<open>[arr[1], arr[0]]\<close>\<close>
  "flip arr = (snd arr, fst arr)"

text \<open>
  A two-element array is a pair: \<open>fst\<close> is index 0 and \<open>snd\<close> is index 1. The
  arguments of \<open>distance\<close> are \<open>[lat, lng]\<close> pairs. The operations are those of the
  source in its order, on exact reals: the roundings of the program's doubles, which
  depend on that order, are not part of the model.
\<close>

definition distance :: "number \<times> number \<Rightarrow> number \<times> number \<Rightarrow> number" where
  "distance fromLatLng toLatLng =
     (let from = flip fromLatLng;
          to = flip toLatLng;
          dLat = degreesToRadians (num_op (-) (snd to) (snd from));
          dLon = degreesToRadians (num_op (-) (fst to) (fst from));
          lat1 = degreesToRadians (snd from);
          lat2 = degreesToRadians (snd to);
          a = num_op (+)
                (map_option (\<lambda>x. x ^ 2) (map_option sin (num_op (/) dLat (Some 2))))
                (num_op (*)
                   (num_op (*)
                      (map_option (\<lambda>x. x ^ 2) (map_option sin (num_op (/) dLon (Some 2))))
                      (map_option cos lat1))
                   (map_option cos lat2))
      in radiansToKmLength
           (num_op (*) (Some 2) (Math_atan2 (Math_sqrt a) (Math_sqrt (num_op (-) (Some 1) a)))))"

section \<open>Nested keys (geohash.utils.ts) and the search (geohash.service.ts)\<close>

text \<open>
  A document object is the list of its own properties. Property names inherited from
  \<open>Object.prototype\<close> are outside the model, and so are arrays and functions.
\<close>

type_synonym obj = "(string \<times> jsval) list"

definition own_property :: "obj \<Rightarrow> string \<Rightarrow> jsval" where
  \<comment> \<open>\<open>o[key]\<close> on an object: \<open>undefined\<close> when the key is missing\<close>
  "own_property kvs key = (case map_of kvs key of None \<Rightarrow> JUndefined | Some x \<Rightarrow> x)"

definition property :: "jsval \<Rightarrow> string \<Rightarrow> error + jsval" where
  \<comment> \<open>\<open>v.key\<close>: a TypeError on \<open>undefined\<close> and \<open>null\<close>; a boolean, number or string
      has none of the keys read here\<close>
  "property v key =
     (case v of
        JUndefined \<Rightarrow> Inl TypeError
      | JNull \<Rightarrow> Inl TypeError
      | JObject kvs \<Rightarrow> Inr (own_property kvs key)
      | _ \<Rightarrow> Inr JUndefined)"

fun falsy :: "jsval \<Rightarrow> bool" where
  \<comment> \<open>\<open>!v\<close>\<close>
  "falsy JUndefined = True"
| "falsy JNull = True"
| "falsy (JBoolean b) = (\<not> b)"
| "falsy (JNumber n) = (n = None \<or> n = Some 0)"
| "falsy (JString s) = (s = [])"
| "falsy (JObject kvs) = False"

fun typeof_object :: "jsval \<Rightarrow> bool" where
  \<comment> \<open>\<open>typeof v === "object"\<close>\<close>
  "typeof_object JNull = True"
| "typeof_object (JObject kvs) = True"
| "typeof_object v = False"

fun getNestedKey_loop :: "jsval \<Rightarrow> string list \<Rightarrow> jsval \<Rightarrow> jsval" where
  \<comment> \<open>the for loop of \<open>getNestedKey\<close> over the rest of \<open>pList\<close>, and the code after it\<close>
  "getNestedKey_loop obj [] fallbackVal = (if obj = JUndefined then fallbackVal else obj)"
| "getNestedKey_loop obj (key # pList) fallbackVal =
     (if falsy obj \<or> \<not> typeof_object obj then fallbackVal
      else (case obj of
              JObject kvs \<Rightarrow> getNestedKey_loop (own_property kvs key) pList fallbackVal
            | _ \<Rightarrow> fallbackVal))"

definition getNestedKey :: "jsval \<Rightarrow> string \<Rightarrow> jsval \<Rightarrow> jsval" where
  "getNestedKey obj path fallbackVal = getNestedKey_loop obj (split (CHR ''.'') path) fallbackVal"

definition getGeoPoint :: "obj \<Rightarrow> string \<Rightarrow> error + jsval" where
  "getGeoPoint v fieldPath =
     (if CHR ''.'' \<in> set fieldPath
      then (let data = getNestedKey (JObject v) fieldPath JUndefined in property data ''geopoint'')
      else property (own_property v fieldPath) ''geopoint'')"

definition latitude_longitude :: "error + jsval \<Rightarrow> error + jsval \<times> jsval" where
  \<comment> \<open>the destructuring \<open>const { latitude, longitude } = ...\<close>\<close>
  "latitude_longitude g =
     (case g of
        Inl e \<Rightarrow> Inl e
      | Inr p \<Rightarrow>
         (case property p ''latitude'' of
            Inl e \<Rightarrow> Inl e
          | Inr la \<Rightarrow> (case property p ''longitude'' of Inl e \<Rightarrow> Inl e | Inr lo \<Rightarrow> Inr (la, lo))))"

record snapshot =
  snap_id :: string
  snap_data :: obj

definition snapToData :: "snapshot list \<Rightarrow> obj list" where
  \<comment> \<open>\<open>{ id: v.id, ...v.data() }\<close>: a later key replaces an earlier one\<close>
  "snapToData docs = map (\<lambda>v. AList.merge [(''id'', JString (snap_id v))] (snap_data v)) docs"

fun js_map :: "('a \<Rightarrow> error + 'b) \<Rightarrow> 'a list \<Rightarrow> error + 'b list" where
  \<comment> \<open>\<open>Array.prototype.map\<close> with a callback that may throw; also \<open>Promise.all\<close> over the
      mapped promises, where one rejection rejects the whole (of several rejections the
      model reports the first in array order, the program the first in time)\<close>
  "js_map f [] = Inr []"
| "js_map f (x # xs) =
     (case f x of
        Inl e \<Rightarrow> Inl e
      | Inr y \<Rightarrow> (case js_map f xs of Inl e \<Rightarrow> Inl e | Inr ys \<Rightarrow> Inr (y # ys)))"

fun js_filter_from ::
  "nat \<Rightarrow> ('a \<Rightarrow> nat \<Rightarrow> 'a list \<Rightarrow> error + bool) \<Rightarrow> 'a list \<Rightarrow> 'a list \<Rightarrow> error + 'a list" where
  "js_filter_from pos f [] arr = Inr []"
| "js_filter_from pos f (x # xs) arr =
     (case f x pos arr of
        Inl e \<Rightarrow> Inl e
      | Inr b \<Rightarrow>
         (case js_filter_from (Suc pos) f xs arr of
            Inl e \<Rightarrow> Inl e
          | Inr ys \<Rightarrow> Inr (if b then x # ys else ys)))"

definition js_filter :: "('a \<Rightarrow> nat \<Rightarrow> 'a list \<Rightarrow> error + bool) \<Rightarrow> 'a list \<Rightarrow> error + 'a list" where
  \<comment> \<open>\<open>Array.prototype.filter\<close> with the callback \<open>(val, pos, arr)\<close>\<close>
  "js_filter f arr = js_filter_from 0 f arr arr"

fun findIndex_from :: "nat \<Rightarrow> (nat \<Rightarrow> 'a \<Rightarrow> bool) \<Rightarrow> 'a list \<Rightarrow> int" where
  "findIndex_from i p [] = - 1"
| "findIndex_from i p (x # xs) = (if p i x then int i else findIndex_from (Suc i) p xs)"

definition findIndex :: "(nat \<Rightarrow> 'a \<Rightarrow> bool) \<Rightarrow> 'a list \<Rightarrow> int" where
  \<comment> \<open>\<open>Array.prototype.findIndex\<close>; the predicate sees the index too\<close>
  "findIndex p arr = findIndex_from 0 p arr"

definition strict_equals :: "nat \<Rightarrow> jsval \<Rightarrow> nat \<Rightarrow> jsval \<Rightarrow> bool" where
  \<comment> \<open>\<open>a === b\<close> for the values \<open>a\<close>, \<open>b\<close> read from the array elements \<open>i\<close>, \<open>j\<close>: NaN
      equals nothing, and two objects are equal only when they are one object, which for
      values of different documents is never the case\<close>
  "strict_equals i a j b =
     (case (a, b) of
        (JNumber x, JNumber y) \<Rightarrow> x \<noteq> None \<and> x = y
      | (JObject _, JObject _) \<Rightarrow> i = j
      | _ \<Rightarrow> a = b)"

record geo_search_result =
  doc :: obj
  geoMetadata_distance :: number

fun insort_by :: "('a \<Rightarrow> 'a \<Rightarrow> number) \<Rightarrow> 'a \<Rightarrow> 'a list \<Rightarrow> 'a list" where
  "insort_by cmp x [] = [x]"
| "insort_by cmp x (y # ys) =
     (if (case cmp x y of None \<Rightarrow> True | Some c \<Rightarrow> c \<le> 0) then x # y # ys
      else y # insort_by cmp x ys)"

definition js_sort :: "('a \<Rightarrow> 'a \<Rightarrow> number) \<Rightarrow> 'a list \<Rightarrow> 'a list" where
  \<comment> \<open>\<open>Array.prototype.sort\<close> with a comparator: a stable sort (ECMAScript 2019), here by
      insertion; a NaN from the comparator counts as 0\<close>
  "js_sort cmp xs = foldr (insort_by cmp) xs []"

definition geohashLength :: nat where
  "geohashLength = 9"

definition search_area :: "number \<times> number \<Rightarrow> number \<Rightarrow> string list option" where
  \<comment> \<open>\<open>performSearch\<close> up to \<open>area\<close>; \<open>center\<close> is the pair \<open>(center.lat, center.lng)\<close>\<close>
  "search_area center radius =
     (let precision = setPrecision radius
      in case encode_hash (fst center) (snd center) (Some (real geohashLength)) of
           None \<Rightarrow> None
         | Some h \<Rightarrow>
            (let centerHash = take precision h
             in case neighbors centerHash of
                  None \<Rightarrow> None
                | Some ns \<Rightarrow> Some (ns @ [centerHash])))"

text \<open>
  The document store is the function \<open>fsQuery\<close>: given the \<open>orderBy\<close> path and the
  \<open>startAt\<close> and \<open>endAt\<close> values, it answers with the documents of the snapshot or fails.
\<close>

type_synonym firestore_query = "string \<Rightarrow> string \<Rightarrow> string \<Rightarrow> error + snapshot list"

definition queryByGeohash :: "firestore_query \<Rightarrow> string \<Rightarrow> string \<Rightarrow> error + snapshot list" where
  "queryByGeohash query geohash field =
     (let endAt = geohash @ ''~'' in query (field @ ''.geohash'') geohash endAt)"

definition flattened ::
  "firestore_query \<Rightarrow> number \<times> number \<Rightarrow> number \<Rightarrow> string \<Rightarrow> (error + obj list) option" where
  \<comment> \<open>\<open>performSearch\<close> up to \<open>reduced\<close>, the concatenation of the nine query results\<close>
  "flattened fsQuery center radius field =
     map_option
       (\<lambda>area.
          case js_map (\<lambda>hash. case queryByGeohash fsQuery hash field of
                                Inl e \<Rightarrow> Inl e
                              | Inr snap \<Rightarrow> Inr (snapToData snap)) area of
            Inl e \<Rightarrow> Inl e
          | Inr queries \<Rightarrow> Inr (foldl (\<lambda>acc curr. acc @ curr) [] queries))
       (search_area center radius)"

definition true_distance ::
  "(string \<Rightarrow> number) \<Rightarrow> number \<times> number \<Rightarrow> string \<Rightarrow> obj \<Rightarrow> error + number" where
  \<comment> \<open>\<open>distance([center.lat, center.lng], [latitude, longitude])\<close> after the destructuring
      of \<open>this.getGeoPoint(val, field)\<close>\<close>
  "true_distance StringToNumber center field v =
     (case latitude_longitude (getGeoPoint v field) of
        Inl e \<Rightarrow> Inl e
      | Inr (la, lo) \<Rightarrow>
          Inr (distance center (toNumber StringToNumber la, toNumber StringToNumber lo)))"

definition filter_callback ::
  "(string \<Rightarrow> number) \<Rightarrow> number \<times> number \<Rightarrow> number \<Rightarrow> string \<Rightarrow>
     obj \<Rightarrow> nat \<Rightarrow> obj list \<Rightarrow> error + bool" where
  \<comment> \<open>the arrow function \<open>(val, pos, arr) => ...\<close> given to \<open>reduced.filter\<close>\<close>
  "filter_callback StringToNumber center radiusBuffer field v pos arr =
     (case true_distance StringToNumber center field v of
        Inl e \<Rightarrow> Inl e
      | Inr d \<Rightarrow>
         Inr (num_le d radiusBuffer \<and>
              findIndex (\<lambda>i w. strict_equals i (own_property w ''id'')
                                  pos (own_property v ''id'')) arr = int pos))"

definition map_callback ::
  "(string \<Rightarrow> number) \<Rightarrow> number \<times> number \<Rightarrow> string \<Rightarrow> obj \<Rightarrow> error + geo_search_result" where
  \<comment> \<open>the arrow function given to \<open>filtered.map\<close>: \<open>{ ...val, geoMetadata }\<close> is the
      record with the new \<open>geoMetadata.distance\<close>\<close>
  "map_callback StringToNumber center field v =
     (case true_distance StringToNumber center field v of
        Inl e \<Rightarrow> Inl e
      | Inr d \<Rightarrow> Inr \<lparr>doc = v, geoMetadata_distance = d\<rparr>)"

definition sort_callback :: "geo_search_result \<Rightarrow> geo_search_result \<Rightarrow> number" where
  \<comment> \<open>\<open>(a, b) => a.geoMetadata.distance - b.geoMetadata.distance\<close>\<close>
  "sort_callback a b = num_op (-) (geoMetadata_distance a) (geoMetadata_distance b)"

definition performSearch ::
  "(string \<Rightarrow> number) \<Rightarrow> firestore_query \<Rightarrow> number \<times> number \<Rightarrow> number \<Rightarrow> string \<Rightarrow>
     (error + geo_search_result list) option" where
  "performSearch StringToNumber fsQuery center radius field =
     map_option
       (\<lambda>r. case r of
          Inl e \<Rightarrow> Inl e
        | Inr reduced \<Rightarrow>
           (let radiusBuffer = num_op (*) radius (Some 1.01)
            in case js_filter (filter_callback StringToNumber center radiusBuffer field) reduced of
                 Inl e \<Rightarrow> Inl e
               | Inr filtered \<Rightarrow>
                  (case js_map (map_callback StringToNumber center field) filtered of
                     Inl e \<Rightarrow> Inl e
                   | Inr mapped \<Rightarrow> Inr (js_sort sort_callback mapped))))
       (flattened fsQuery center radius field)"

section \<open>Notions used in the proofs\<close>

definition box_ok :: "'a intervals_scheme \<Rightarrow> bool" where
  \<comment> \<open>the intervals are ordered and lie inside the globe\<close>
  "box_ok s = (- 90 \<le> minLat s \<and> minLat s \<le> maxLat s \<and> maxLat s \<le> 90 \<and>
               - 180 \<le> minLon s \<and> minLon s \<le> maxLon s \<and> maxLon s \<le> 180)"

definition holds :: "real \<Rightarrow> real \<Rightarrow> 'a intervals_scheme \<Rightarrow> bool" where
  \<comment> \<open>the point \<open>(x, y)\<close> lies in the intervals\<close>
  "holds x y s = (minLat s \<le> x \<and> x \<le> maxLat s \<and> minLon s \<le> y \<and> y \<le> maxLon s)"

definition enc_bit :: "number \<Rightarrow> number \<Rightarrow> enc_state \<Rightarrow> nat" where
  \<comment> \<open>the bit that one iteration of the loop of \<open>encode\<close> appends\<close>
  "enc_bit la lo s =
     (if bitsTotal s mod 2 = 0
      then (if num_gt lo (Some ((maxLon s + minLon s) / 2)) then 1 else 0)
      else (if num_gt la (Some ((maxLat s + minLat s) / 2)) then 1 else 0))"

definition dec_of :: "enc_state \<Rightarrow> dec_state" where
  \<comment> \<open>the state of \<open>decode_bbox\<close> that corresponds to a state of \<open>encode\<close>\<close>
  "dec_of s = \<lparr>maxLat = maxLat s, minLat = minLat s, maxLon = maxLon s, minLon = minLon s,
               isLon = (bitsTotal s mod 2 = 0)\<rparr>"

definition zero_outside :: "char \<Rightarrow> char" where
  \<comment> \<open>a character whose lower-case form is not a symbol of the alphabet is replaced by
      the character 0; every other character, an upper-case letter of the alphabet
      included, is kept\<close>
  "zero_outside c = (if toLowerCase_char c \<in> set BASE32_CODES then c else CHR ''0'')"


definition nullish :: "jsval \<Rightarrow> bool" where
  "nullish x = (x = JUndefined \<or> x = JNull)"

definition resolve :: "obj \<Rightarrow> string \<Rightarrow> jsval" where
  \<comment> \<open>the value that the field path resolves to on a record\<close>
  "resolve v fieldPath =
     (if CHR ''.'' \<in> set fieldPath then getNestedKey (JObject v) fieldPath JUndefined
      else own_property v fieldPath)"

definition no_geopoint :: "obj \<Rightarrow> string \<Rightarrow> bool" where
  \<comment> \<open>the field path resolves to \<open>undefined\<close> or \<open>null\<close>, or the value it resolves to
      has \<open>undefined\<close> or \<open>null\<close> as its \<open>geopoint\<close>\<close>
  "no_geopoint v fieldPath =
     (nullish (resolve v fieldPath) \<or>
      (case resolve v fieldPath of JObject kvs \<Rightarrow> nullish (own_property kvs ''geopoint'')
       | _ \<Rightarrow> True))"




definition annotate ::
  "(string \<Rightarrow> number) \<Rightarrow> number \<times> number \<Rightarrow> string \<Rightarrow> obj \<Rightarrow> geo_search_result" where
  \<comment> \<open>a record with its distance to the centre\<close>
  "annotate StringToNumber center field v =
     \<lparr>doc = v,
      geoMetadata_distance =
        (case true_distance StringToNumber center field v of Inl e \<Rightarrow> None | Inr d \<Rightarrow> d)\<rparr>"




definition bare_store :: firestore_query where
  \<comment> \<open>a store whose only document has no fields\<close>
  "bare_store path startAt endAt = Inr [\<lparr>snap_id = ''a'', snap_data = []\<rparr>]"

definition blank_store :: firestore_query where
  \<comment> \<open>a store whose only document has a geopoint without coordinates\<close>
  "blank_store path startAt endAt =
     Inr [\<lparr>snap_id = ''a'', snap_data = [(''geo'', JObject [(''geopoint'', JObject [])])]\<rparr>]"

section \<open>The codec: lemmas\<close>

lemma box_ok_decode_bit: "box_ok s \<Longrightarrow> box_ok (decode_bit hv k s)"
  by (auto simp: box_ok_def decode_bit_def Let_def)

lemma box_ok_decode_char: "box_ok s \<Longrightarrow> box_ok (decode_char c s)"
  by (simp add: decode_char_def Let_def box_ok_decode_bit)

lemma box_ok_fold: "box_ok s \<Longrightarrow> box_ok (fold decode_char h s)"
  by (induction h arbitrary: s) (simp_all add: box_ok_decode_char)

lemma box_ok_init: "box_ok decode_init"
  by (simp add: box_ok_def decode_init_def)

lemma toLowerCase_char_idem: "toLowerCase_char (toLowerCase_char c) = toLowerCase_char c"
  unfolding toLowerCase_char_def Let_def
  by (auto simp: of_char_of [where ?'a = nat])

lemma decode_char_lower: "decode_char (toLowerCase_char c) = decode_char c"
  by (rule ext) (simp add: decode_char_def toLowerCase_def toLowerCase_char_idem)

lemma fold_decode_lower: "fold decode_char (toLowerCase h) s = fold decode_char h s"
  by (induction h arbitrary: s) (simp_all add: toLowerCase_def decode_char_lower)

lemma upt_32: "[0 ..< 32] = [0, 1, 2, 3, 4, 5, 6, 7, 8, 9, 10, 11, 12, 13, 14, 15, 16, 17, 18, 19, 20,
   21, 22, 23, 24, 25, 26, 27, 28, 29, 30, 31 :: nat]"
  by code_simp

lemma length_BASE32_CODES: "length BASE32_CODES = 32"
  by (simp add: BASE32_CODES_def)

lemma BASE32_CODES_DICT_eq:
  "BASE32_CODES_DICT = [''0'' \<mapsto> 0, ''1'' \<mapsto> 1, ''2'' \<mapsto> 2, ''3'' \<mapsto> 3, ''4'' \<mapsto> 4,
  ''5'' \<mapsto> 5, ''6'' \<mapsto> 6, ''7'' \<mapsto> 7, ''8'' \<mapsto> 8, ''9'' \<mapsto> 9, ''b'' \<mapsto> 10, ''c'' \<mapsto> 11,
  ''d'' \<mapsto> 12, ''e'' \<mapsto> 13, ''f'' \<mapsto> 14, ''g'' \<mapsto> 15, ''h'' \<mapsto> 16, ''j'' \<mapsto> 17, ''k'' \<mapsto> 18,
  ''m'' \<mapsto> 19, ''n'' \<mapsto> 20, ''p'' \<mapsto> 21, ''q'' \<mapsto> 22, ''r'' \<mapsto> 23, ''s'' \<mapsto> 24, ''t'' \<mapsto> 25,
  ''u'' \<mapsto> 26, ''v'' \<mapsto> 27, ''w'' \<mapsto> 28, ''x'' \<mapsto> 29, ''y'' \<mapsto> 30, ''z'' \<mapsto> 31]"
  unfolding BASE32_CODES_DICT_def length_BASE32_CODES upt_32
  by (simp add: BASE32_CODES_def)

lemma dict_None_iff: "BASE32_CODES_DICT [x] = None \<longleftrightarrow> x \<notin> set BASE32_CODES"
  by (simp add: BASE32_CODES_DICT_eq BASE32_CODES_def)

lemma encode_loop_step:
  "num_lt (Some (real (length (chars s)))) n \<Longrightarrow>
   encode_loop lat lon n s = encode_loop lat lon n (encode_body lat lon s)"
  by (subst encode_loop.simps) simp

lemma encode_loop_stop:
  "\<not> num_lt (Some (real (length (chars s)))) n \<Longrightarrow> encode_loop lat lon n s = Some s"
  by (subst encode_loop.simps) simp

lemma body_pending:
  "bits s < 4 \<Longrightarrow>
     bits (encode_body lat lon s) = bits s + 1 \<and>
     chars (encode_body lat lon s) = chars s \<and>
     bitsTotal (encode_body lat lon s) = bitsTotal s + 1 \<and>
     hash_value (encode_body lat lon s) = 2 * hash_value s + enc_bit lat lon s"
  by (simp add: encode_body_def Let_def enc_bit_def)

lemma body_emit:
  "bits s = 4 \<Longrightarrow>
     bits (encode_body lat lon s) = 0 \<and>
     chars (encode_body lat lon s) = chars s @ [code_at (2 * hash_value s + enc_bit lat lon s)] \<and>
     bitsTotal (encode_body lat lon s) = bitsTotal s + 1 \<and>
     hash_value (encode_body lat lon s) = 0"
  by (simp add: encode_body_def Let_def enc_bit_def mult.commute)

lemma body_sim:
  "bit_of hv k = enc_bit lat lon s \<Longrightarrow> decode_bit hv k (dec_of s) = dec_of (encode_body lat lon s)"
  by (auto simp: encode_body_def decode_bit_def dec_of_def enc_bit_def Let_def mod_Suc split: if_splits) 

lemma body_holds:
  "holds x y s \<Longrightarrow> holds x y (encode_body (Some x) (Some y) s)"
  by (auto simp: encode_body_def holds_def Let_def num_gt_def)

lemma enc_bit_le: "enc_bit lat lon s \<le> 1"
  by (simp add: enc_bit_def)

lemma bit_of_Some: "bit_of (Some v) k = (v div 2 ^ k) mod 2"
  by (simp add: bit_of_def drop_bit_eq_div and_one_eq)

lemma dict_of_code:
  assumes "v < 32"
  shows "BASE32_CODES_DICT (toLowerCase [BASE32_CODES ! v]) = Some v"
proof -
  from assms have "v \<in> set [0 ..< 32]" by simp
  then have "v \<in> {0, 1, 2, 3, 4, 5, 6, 7, 8, 9, 10, 11, 12, 13, 14, 15, 16, 17, 18, 19, 20,
   21, 22, 23, 24, 25, 26, 27, 28, 29, 30, 31}"
    unfolding upt_32 by simp
  then show ?thesis
    by (elim insertE emptyE)
       (simp_all add: BASE32_CODES_DICT_eq BASE32_CODES_def toLowerCase_def toLowerCase_char_def)
qed

lemma bits_of_value:
  fixes b0 b1 b2 b3 b4 :: nat
  assumes "b0 \<le> 1" "b1 \<le> 1" "b2 \<le> 1" "b3 \<le> 1" "b4 \<le> 1"
  defines "v \<equiv> 2 * (2 * (2 * (2 * b0 + b1) + b2) + b3) + b4"
  shows "v < 32 \<and> bit_of (Some v) 4 = b0 \<and> bit_of (Some v) 3 = b1 \<and> bit_of (Some v) 2 = b2 \<and>
         bit_of (Some v) 1 = b3 \<and> bit_of (Some v) 0 = b4"
proof -
  have c: "b0 = 0 \<or> b0 = 1" "b1 = 0 \<or> b1 = 1" "b2 = 0 \<or> b2 = 1" "b3 = 0 \<or> b3 = 1" "b4 = 0 \<or> b4 = 1"
    using assms(1-5) by auto
  show ?thesis
    unfolding v_def bit_of_Some using c by (elim disjE) simp_all
qed

lemma encode_char_step:
  fixes lat lon :: number
  assumes b: "bits s = 0" and h: "hash_value s = 0"
  defines "s5 \<equiv> encode_body lat lon (encode_body lat lon (encode_body lat lon
                   (encode_body lat lon (encode_body lat lon s))))"
  shows "\<exists>v<32. chars s5 = chars s @ [[BASE32_CODES ! v]] \<and> bits s5 = 0 \<and> hash_value s5 = 0 \<and>
           bitsTotal s5 = bitsTotal s + 5 \<and>
           decode_char (BASE32_CODES ! v) (dec_of s) = dec_of s5 \<and>
           (\<forall>n. num_lt (Some (real (length (chars s)))) n \<longrightarrow>
                encode_loop lat lon n s = encode_loop lat lon n s5) \<and>
           (\<forall>x y. lat = Some x \<and> lon = Some y \<and> holds x y s \<longrightarrow> holds x y s5)"
proof -
  define s1 where "s1 = encode_body lat lon s"
  define s2 where "s2 = encode_body lat lon s1"
  define s3 where "s3 = encode_body lat lon s2"
  define s4 where "s4 = encode_body lat lon s3"
  have s5: "s5 = encode_body lat lon s4"
    by (simp add: s5_def s1_def s2_def s3_def s4_def)
  define b0 where "b0 = enc_bit lat lon s"
  define b1 where "b1 = enc_bit lat lon s1"
  define b2 where "b2 = enc_bit lat lon s2"
  define b3 where "b3 = enc_bit lat lon s3"
  define b4 where "b4 = enc_bit lat lon s4"
  define v where "v = 2 * (2 * (2 * (2 * b0 + b1) + b2) + b3) + b4"
  have le: "b0 \<le> 1" "b1 \<le> 1" "b2 \<le> 1" "b3 \<le> 1" "b4 \<le> 1"
    unfolding b0_def b1_def b2_def b3_def b4_def by (rule enc_bit_le)+
  note bv = bits_of_value [OF le, folded v_def]
  have p1: "bits s1 = 1" "chars s1 = chars s" "bitsTotal s1 = bitsTotal s + 1" "hash_value s1 = b0"
    using body_pending [of s lat lon] b h by (simp_all add: s1_def b0_def)
  have p2: "bits s2 = 2" "chars s2 = chars s" "bitsTotal s2 = bitsTotal s + 2"
      "hash_value s2 = 2 * b0 + b1"
    using body_pending [of s1 lat lon] p1 by (simp_all add: s2_def b1_def)
  have p3: "bits s3 = 3" "chars s3 = chars s" "bitsTotal s3 = bitsTotal s + 3"
      "hash_value s3 = 2 * (2 * b0 + b1) + b2"
    using body_pending [of s2 lat lon] p2 by (simp_all add: s3_def b2_def)
  have p4: "bits s4 = 4" "chars s4 = chars s" "bitsTotal s4 = bitsTotal s + 4"
      "hash_value s4 = 2 * (2 * (2 * b0 + b1) + b2) + b3"
    using body_pending [of s3 lat lon] p3 by (simp_all add: s4_def b3_def)
  have p5: "bits s5 = 0" "chars s5 = chars s @ [code_at v]" "bitsTotal s5 = bitsTotal s + 5"
      "hash_value s5 = 0"
    using body_emit [of s4 lat lon] p4 by (simp_all add: s5 b4_def v_def)
  have code: "code_at v = [BASE32_CODES ! v]"
    using bv by (simp add: code_at_def length_BASE32_CODES)
  have d: "BASE32_CODES_DICT (toLowerCase [BASE32_CODES ! v]) = Some v"
    using bv by (simp add: dict_of_code)
  have sim: "decode_char (BASE32_CODES ! v) (dec_of s) = dec_of s5"
    unfolding decode_char_def Let_def d
    using bv by (simp add: body_sim b0_def b1_def b2_def b3_def b4_def
        s1_def [symmetric] s2_def [symmetric] s3_def [symmetric] s4_def [symmetric] s5 [symmetric])
  have loop: "encode_loop lat lon n s = encode_loop lat lon n s5"
    if "num_lt (Some (real (length (chars s)))) n" for n
    using that p1 p2 p3 p4
    by (simp add: encode_loop_step [of s] encode_loop_step [of s1] encode_loop_step [of s2]
        encode_loop_step [of s3] encode_loop_step [of s4] s1_def [symmetric] s2_def [symmetric]
        s3_def [symmetric] s4_def [symmetric] s5 [symmetric])
  have keep: "holds x y s5" if "lat = Some x" "lon = Some y" "holds x y s" for x y
    using that by (simp add: s5_def body_holds)
  show ?thesis
    using bv p5 code sim loop keep by (intro exI [of _ v]) simp
qed

lemma encode_loop_total:
  fixes lat lon :: number
  assumes "bits s = 0" and "hash_value s = 0" and "length (chars s) + k = N"
  shows "\<exists>t h. encode_loop lat lon (Some (real N)) s = Some t \<and>
           chars t = chars s @ map (\<lambda>c. [c]) h \<and> length h = k \<and>
           fold decode_char h (dec_of s) = dec_of t \<and>
           (\<forall>x y. lat = Some x \<and> lon = Some y \<and> holds x y s \<longrightarrow> holds x y t)"
  using assms
proof (induction k arbitrary: s)
  case 0
  then have "encode_loop lat lon (Some (real N)) s = Some s"
    by (simp add: encode_loop_stop num_lt_def)
  then show ?case
    by (intro exI [of _ s] exI [of _ "[]"]) simp
next
  case (Suc k)
  define s5 where "s5 = encode_body lat lon (encode_body lat lon (encode_body lat lon
                   (encode_body lat lon (encode_body lat lon s))))"
  from Suc.prems have lt: "num_lt (Some (real (length (chars s)))) (Some (real N))"
    by (simp add: num_lt_def)
  from encode_char_step [OF Suc.prems(1,2), of lat lon, folded s5_def] lt
  obtain v where v: "v < 32" "chars s5 = chars s @ [[BASE32_CODES ! v]]" "bits s5 = 0"
      "hash_value s5 = 0" "decode_char (BASE32_CODES ! v) (dec_of s) = dec_of s5"
      "encode_loop lat lon (Some (real N)) s = encode_loop lat lon (Some (real N)) s5"
      "\<And>x y. lat = Some x \<Longrightarrow> lon = Some y \<Longrightarrow> holds x y s \<Longrightarrow> holds x y s5"
    by blast
  from v(2) Suc.prems(3) have "length (chars s5) + k = N" by simp
  from Suc.IH [OF v(3,4) this]
  obtain t h where t: "encode_loop lat lon (Some (real N)) s5 = Some t"
      "chars t = chars s5 @ map (\<lambda>c. [c]) h" "length h = k"
      "fold decode_char h (dec_of s5) = dec_of t"
      "\<And>x y. lat = Some x \<Longrightarrow> lon = Some y \<Longrightarrow> holds x y s5 \<Longrightarrow> holds x y t"
    by blast
  show ?case
    using v t by (intro exI [of _ t] exI [of _ "(BASE32_CODES ! v) # h"]) simp
qed

lemma dec_of_init: "dec_of encode_init = decode_init"
  by (simp add: dec_of_def encode_init_def decode_init_def)

lemma holds_dec_of: "holds x y (dec_of t) = holds x y t"
  by (simp add: holds_def dec_of_def)

lemma concat_singletons: "concat (map (\<lambda>c. [c]) h) = h"
  by (induction h) simp_all

lemma encode_hash_total:
  "\<exists>h. encode_hash lat lon (Some (real N)) = Some h \<and> length h = N \<and>
       (\<forall>x y. lat = Some x \<and> lon = Some y \<and> holds x y decode_init \<longrightarrow>
              holds x y (fold decode_char h decode_init))"
proof -
  have "bits encode_init = 0" "hash_value encode_init = 0" "length (chars encode_init) + N = N"
    by (simp_all add: encode_init_def)
  from encode_loop_total [OF this, of lat lon]
  obtain t h where t: "encode_loop lat lon (Some (real N)) encode_init = Some t"
      "chars t = chars encode_init @ map (\<lambda>c. [c]) h" "length h = N"
      "fold decode_char h (dec_of encode_init) = dec_of t"
      "\<And>x y. lat = Some x \<Longrightarrow> lon = Some y \<Longrightarrow> holds x y encode_init \<Longrightarrow> holds x y t"
    by blast
  have "encode_hash lat lon (Some (real N)) = Some h"
    using t(1,2) by (simp add: encode_hash_def encode_init_def concat_singletons)
  moreover have "holds x y (fold decode_char h decode_init)"
    if "lat = Some x" "lon = Some y" "holds x y decode_init" for x y
  proof -
    from that(3) have "holds x y encode_init"
      by (simp add: holds_def encode_init_def decode_init_def)
    from t(5) [OF that(1,2) this] show ?thesis
      using t(4) by (simp add: dec_of_init holds_dec_of [symmetric])
  qed
  ultimately show ?thesis using t(3) by blast
qed

lemma encode_numbers:
  "encode StringToNumber (JNumber lat) (JNumber lon) (JNumber n) =
     map_option Inr (encode_hash lat lon n)"
  by (simp add: encode_def)

lemma those_all_Some:
  "(\<And>x. x \<in> set xs \<Longrightarrow> \<exists>y. x = Some y \<and> P y) \<Longrightarrow>
   \<exists>ys. those xs = Some ys \<and> map Some ys = xs \<and> map P ys = replicate (length xs) True"
proof (induction xs)
  case Nil
  then show ?case by simp
next
  case (Cons x xs)
  then obtain y where y: "x = Some y" "P y" by auto
  from Cons obtain ys where "those xs = Some ys" "map Some ys = xs"
      "map P ys = replicate (length xs) True"
    by auto
  with y show ?case by (intro exI [of _ "y # ys"]) simp
qed

lemma neighbors_eight:
  "\<exists>ns. neighbors h = Some ns \<and> map length ns = replicate 8 (length h) \<and>
     map Some ns =
       map (\<lambda>(latDir, lonDir).
              encode_hash (Some (latitude (decode h) + latDir * 2 * latitude (error (decode h))))
                (Some (longitude (decode h) + lonDir * 2 * longitude (error (decode h))))
                (Some (real (length h))))
         [(1, 0), (1, 1), (0, 1), (- 1, 1), (- 1, 0), (- 1, - 1), (0, - 1), (1, - 1)]"
proof -
  define dirs :: "(real \<times> real) list"
    where "dirs = [(1, 0), (1, 1), (0, 1), (- 1, 1), (- 1, 0), (- 1, - 1), (0, - 1), (1, - 1)]"
  define enc where "enc = (\<lambda>(latDir, lonDir).
              encode_hash (Some (latitude (decode h) + latDir * 2 * latitude (error (decode h))))
                (Some (longitude (decode h) + lonDir * 2 * longitude (error (decode h))))
                (Some (real (length h))))"
  have n: "neighbors h = those (map enc dirs)"
    by (simp add: neighbors_def Let_def enc_def dirs_def mult.commute del: those.simps)
  have "\<exists>y. x = Some y \<and> length y = length h" if "x \<in> set (map enc dirs)" for x
  proof -
    from that obtain a b where "x = enc (a, b)" by auto
    then show ?thesis
      using encode_hash_total [of _ _ "length h"] unfolding enc_def by simp blast
  qed
  from those_all_Some [of "map enc dirs" "\<lambda>y. length y = length h", OF this]
  obtain ns where ns: "those (map enc dirs) = Some ns" "map Some ns = map enc dirs"
      "map (\<lambda>y. length y = length h) ns = replicate (length (map enc dirs)) True"
    by blast
  have "length (map Some ns) = length (map enc dirs)"
    by (simp only: ns(2))
  then have len: "length ns = 8"
    by (simp add: dirs_def)
  have "\<forall>y\<in>set ns. length y = length h"
    using ns(3) by (metis (mono_tags, lifting) in_set_replicate set_map image_iff)
  then have "map length ns = map (\<lambda>_. length h) ns"
    by simp
  then have m: "map length ns = replicate 8 (length h)"
    by (simp only: map_replicate_const len)
  have "neighbors h = Some ns"
    by (simp only: n ns(1))
  then show ?thesis
    using m ns(2) unfolding enc_def dirs_def by (intro exI [of _ ns] conjI)
qed

section \<open>The codec: claims\<close>

text \<open>
  Claim C8. For every hash string (over the geohash alphabet or not), the array that
  \<open>decode_bbox\<close> returns is \<open>[minLat, minLon, maxLat, maxLon]\<close> with
  \<open>-90 \<le> minLat \<le> maxLat \<le> 90\<close> and \<open>-180 \<le> minLon \<le> maxLon \<le> 180\<close>; for the empty
  hash it is the whole globe, and \<open>decode\<close> of the empty hash is the centre \<open>(0, 0)\<close>
  with the errors 90 and 180.
\<close>

theorem decode_bbox_invariant:
  "length (decode_bbox h) = 4 \<and>
   - 90 \<le> decode_bbox h ! 0 \<and> decode_bbox h ! 0 \<le> decode_bbox h ! 2 \<and> decode_bbox h ! 2 \<le> 90 \<and>
   - 180 \<le> decode_bbox h ! 1 \<and> decode_bbox h ! 1 \<le> decode_bbox h ! 3 \<and> decode_bbox h ! 3 \<le> 180 \<and>
   decode_bbox [] = [- 90, - 180, 90, 180] \<and>
   decode [] = \<lparr>latitude = 0, longitude = 0, error = \<lparr>latitude = 90, longitude = 180\<rparr>\<rparr>"
proof -
  have "box_ok (fold decode_char h decode_init)"
    by (rule box_ok_fold [OF box_ok_init])
  then have "length (decode_bbox h) = 4 \<and>
   - 90 \<le> decode_bbox h ! 0 \<and> decode_bbox h ! 0 \<le> decode_bbox h ! 2 \<and> decode_bbox h ! 2 \<le> 90 \<and>
   - 180 \<le> decode_bbox h ! 1 \<and> decode_bbox h ! 1 \<le> decode_bbox h ! 3 \<and> decode_bbox h ! 3 \<le> 180"
    by (simp add: decode_bbox_def Let_def box_ok_def)
  moreover have e: "decode_bbox [] = [- 90, - 180, 90, 180]"
    by (simp add: decode_bbox_def decode_init_def)
  moreover have "decode [] = \<lparr>latitude = 0, longitude = 0, error = \<lparr>latitude = 90, longitude = 180\<rparr>\<rparr>"
    by (simp add: decode_def e)
  ultimately show ?thesis by simp
qed

text \<open>
  Claim C10. Decoding does not depend on the case of the letters: the box of a hash is
  the box of its lower-case form.
\<close>

theorem decode_bbox_case_insensitive: "decode_bbox (toLowerCase h) = decode_bbox h"
  by (simp add: decode_bbox_def fold_decode_lower)

text \<open>
  Claim C1, as stated: a character outside the alphabet makes \<open>decode_bbox\<close> and
  \<open>decode\<close> fail. The letter a is not in the alphabet, and both functions return: the
  dictionary lookup is \<open>undefined\<close>, whose five bits read as 0.
\<close>

theorem decode_unknown_character_counterexample:
  "CHR ''a'' \<notin> set BASE32_CODES \<and>
   decode_bbox ''a'' = [- 90, - 180, - 45, - 135] \<and>
   decode ''a'' = \<lparr>latitude = - 67.5, longitude = - 157.5,
                    error = \<lparr>latitude = 22.5, longitude = 22.5\<rparr>\<rparr>"
proof -
  have b: "decode_bbox ''a'' = [- 90, - 180, - 45, - 135]"
    by code_simp
  have "decode ''a'' = \<lparr>latitude = - 67.5, longitude = - 157.5,
                    error = \<lparr>latitude = 22.5, longitude = 22.5\<rparr>\<rparr>"
    by (simp add: decode_def b)
  moreover have "CHR ''a'' \<notin> set BASE32_CODES"
    by (simp add: BASE32_CODES_def)
  ultimately show ?thesis using b by simp
qed

text \<open>
  Claim C1, amended. For every string of Latin-1 characters (code units below 256),
  \<open>decode_bbox\<close> and \<open>decode\<close> return a result instead of failing, whatever the
  characters are: \<open>decode_bbox\<close> gives four numbers \<open>[minLat, minLon, maxLat, maxLon]\<close>
  with \<open>minLat \<le> maxLat\<close> and \<open>minLon \<le> maxLon\<close>. A character whose lower-case form is
  not one of the 32 symbols of the alphabet is read as five zero bits: the results are
  those of the string in which each such character is replaced by the character 0. A
  character whose lower-case form is in the alphabet, such as B, is read as that
  symbol and not as 0.
\<close>

theorem decode_unknown_character_as_zero:
  "decode_bbox h = decode_bbox (map zero_outside h) \<and>
   decode h = decode (map zero_outside h) \<and>
   length (decode_bbox h) = 4 \<and>
   decode_bbox h ! 0 \<le> decode_bbox h ! 2 \<and> decode_bbox h ! 1 \<le> decode_bbox h ! 3 \<and>
   zero_outside (CHR ''a'') = CHR ''0'' \<and> zero_outside (CHR ''B'') = CHR ''B'' \<and>
   decode_bbox ''B'' = decode_bbox ''b'' \<and> decode_bbox ''B'' \<noteq> decode_bbox ''0''"
proof -
  have c: "decode_char (zero_outside c) = decode_char c" for c
  proof (cases "toLowerCase_char c \<in> set BASE32_CODES")
    case True
    then show ?thesis by (simp add: zero_outside_def)
  next
    case False
    then have n: "BASE32_CODES_DICT (toLowerCase [c]) = None"
      by (simp add: toLowerCase_def dict_None_iff)
    have z: "BASE32_CODES_DICT (toLowerCase ''0'') = Some 0"
      by (simp add: BASE32_CODES_DICT_eq toLowerCase_def toLowerCase_char_def)
    have "decode_bit None k = decode_bit (Some 0) k" for k
      by (rule ext) (simp add: decode_bit_def bit_of_def)
    with False n z show ?thesis
      by (simp add: zero_outside_def decode_char_def Let_def fun_eq_iff)
  qed
  have "fold decode_char (map zero_outside h) s = fold decode_char h s" for s
    by (induction h arbitrary: s) (simp_all add: c)
  then have b: "decode_bbox (map zero_outside h) = decode_bbox h"
    by (simp add: decode_bbox_def)
  then have d: "decode (map zero_outside h) = decode h"
    by (simp add: decode_def)
  have "box_ok (fold decode_char h decode_init)"
    by (rule box_ok_fold [OF box_ok_init])
  then have o: "length (decode_bbox h) = 4 \<and>
      decode_bbox h ! 0 \<le> decode_bbox h ! 2 \<and> decode_bbox h ! 1 \<le> decode_bbox h ! 3"
    by (simp add: decode_bbox_def Let_def box_ok_def)
  have za: "zero_outside (CHR ''a'') = CHR ''0''"
    by code_simp
  have zb: "zero_outside (CHR ''B'') = CHR ''B''"
    by code_simp
  have e1: "decode_bbox ''B'' = decode_bbox ''b''"
    by code_simp
  have e2: "decode_bbox ''B'' \<noteq> decode_bbox ''0''"
    by code_simp
  show ?thesis
    using b d o za zb e1 e2 by simp
qed

text \<open>
  Claim C3. For a latitude in \<open>[-90, 90]\<close>, a longitude in \<open>[-180, 180]\<close> and every
  length \<open>L\<close> (so for 1 to 9), \<open>encode\<close> returns a hash of \<open>L\<close> characters; the point
  that \<open>decode\<close> gives for it lies in the box that \<open>decode_bbox\<close> gives for it, and
  differs from \<open>(lat, lon)\<close> by at most the errors that \<open>decode\<close> returns.
\<close>

theorem encode_decode_roundtrip:
  assumes "- 90 \<le> lat" and "lat \<le> 90" and "- 180 \<le> lon" and "lon \<le> 180"
  shows "\<exists>h. encode StringToNumber (JNumber (Some lat)) (JNumber (Some lon))
                (JNumber (Some (real L))) = Some (Inr h) \<and>
             length h = L \<and>
             decode_bbox h ! 0 \<le> latitude (decode h) \<and> latitude (decode h) \<le> decode_bbox h ! 2 \<and>
             decode_bbox h ! 1 \<le> longitude (decode h) \<and> longitude (decode h) \<le> decode_bbox h ! 3 \<and>
             \<bar>latitude (decode h) - lat\<bar> \<le> latitude (error (decode h)) \<and>
             \<bar>longitude (decode h) - lon\<bar> \<le> longitude (error (decode h))"
proof -
  from assms have init: "holds lat lon decode_init"
    by (simp add: holds_def decode_init_def)
  from encode_hash_total [of "Some lat" "Some lon" L] init
  obtain h where h: "encode_hash (Some lat) (Some lon) (Some (real L)) = Some h" "length h = L"
      "holds lat lon (fold decode_char h decode_init)"
    by blast
  define s where "s = fold decode_char h decode_init"
  have box: "decode_bbox h = [minLat s, minLon s, maxLat s, maxLon s]"
    by (simp add: decode_bbox_def s_def Let_def)
  from h(3) have in_box: "minLat s \<le> lat" "lat \<le> maxLat s" "minLon s \<le> lon" "lon \<le> maxLon s"
    by (simp_all add: holds_def s_def)
  have d: "latitude (decode h) = (minLat s + maxLat s) / 2"
      "longitude (decode h) = (minLon s + maxLon s) / 2"
      "latitude (error (decode h)) = maxLat s - (minLat s + maxLat s) / 2"
      "longitude (error (decode h)) = maxLon s - (minLon s + maxLon s) / 2"
    by (simp_all add: decode_def box Let_def)
  have "encode StringToNumber (JNumber (Some lat)) (JNumber (Some lon))
          (JNumber (Some (real L))) = Some (Inr h)"
    by (simp add: encode_numbers h(1))
  moreover have "decode_bbox h ! 0 \<le> latitude (decode h) \<and> latitude (decode h) \<le> decode_bbox h ! 2 \<and>
             decode_bbox h ! 1 \<le> longitude (decode h) \<and> longitude (decode h) \<le> decode_bbox h ! 3"
    using in_box unfolding d by (simp add: box)
  moreover have "\<bar>latitude (decode h) - lat\<bar> \<le> latitude (error (decode h))"
    using in_box unfolding d by (simp add: abs_le_iff field_simps)
  moreover have "\<bar>longitude (decode h) - lon\<bar> \<le> longitude (error (decode h))"
    using in_box unfolding d by (simp add: abs_le_iff field_simps)
  ultimately show ?thesis using h(2) by blast
qed

theorem encode_decode_roundtrip_witness:
  "- 90 \<le> (42.6::real) \<and> (42.6::real) \<le> 90 \<and> - 180 \<le> (- 5.6::real) \<and> (- 5.6::real) \<le> 180 \<and>
   (\<exists>h. encode (\<lambda>s. None) (JNumber (Some 42.6)) (JNumber (Some (- 5.6)))
                (JNumber (Some (real 5))) = Some (Inr h) \<and>
             length h = 5 \<and>
             decode_bbox h ! 0 \<le> latitude (decode h) \<and> latitude (decode h) \<le> decode_bbox h ! 2 \<and>
             decode_bbox h ! 1 \<le> longitude (decode h) \<and> longitude (decode h) \<le> decode_bbox h ! 3 \<and>
             \<bar>latitude (decode h) - 42.6\<bar> \<le> latitude (error (decode h)) \<and>
             \<bar>longitude (decode h) - (- 5.6)\<bar> \<le> longitude (error (decode h)))"
proof -
  have a: "- 90 \<le> (42.6::real)" "(42.6::real) \<le> 90" "- 180 \<le> (- 5.6::real)" "(- 5.6::real) \<le> 180"
    by simp_all
  show ?thesis
    using a encode_decode_roundtrip [OF a, of "\<lambda>s. None" 5] by simp
qed

text \<open>
  Claim C6. For every hash (empty or not), \<open>neighbors\<close> returns eight strings of the
  length of the input, in the order N, NE, E, SE, S, SW, W, NW: the encodings, at that
  length, of the centre of the input moved by \<open>latDir\<close> cell heights and \<open>lonDir\<close>
  cell widths, a height being twice the latitude error and a width twice the longitude
  error of \<open>decode\<close>.
\<close>

theorem neighbors_spec:
  "\<exists>ns. neighbors h = Some ns \<and> map length ns = replicate 8 (length h) \<and>
     map Some ns =
       map (\<lambda>(latDir, lonDir).
              encode_hash (Some (latitude (decode h) + latDir * 2 * latitude (error (decode h))))
                (Some (longitude (decode h) + lonDir * 2 * longitude (error (decode h))))
                (Some (real (length h))))
         [(1, 0), (1, 1), (0, 1), (- 1, 1), (- 1, 0), (- 1, - 1), (0, - 1), (1, - 1)]"
  by (rule neighbors_eight)

section \<open>Distance, precision and automatic length: lemmas\<close>







lemma distance_NaN:
  "la1 = None \<or> lo1 = None \<or> la2 = None \<or> lo2 = None \<Longrightarrow> distance (la1, lo1) (la2, lo2) = None"
  by (auto simp: distance_def Let_def flip_def degreesToRadians_def num_op_def
      radiansToKmLength_def Math_atan2_def Math_sqrt_def split: option.splits)


lemma encode_auto_number:
  "typeof_number la \<or> typeof_number lo \<Longrightarrow>
   encode StringToNumber la lo (JString ''auto'') =
     Some (Inl (Error ''string notation required for auto precision.''))"
  by (simp add: encode_def ENCODE_AUTO_def)

lemma encode_auto_strings:
  assumes "split (CHR ''.'') s1 = a1 # d1 # r1" and "split (CHR ''.'') s2 = a2 # d2 # r2"
    and "max (length d1) (length d2) \<le> 10"
  shows "\<exists>h. encode StringToNumber (JString s1) (JString s2) (JString ''auto'') = Some (Inr h) \<and>
           length h = [0, 5, 7, 8, 11, 12, 13, 15, 16, 17, 18] ! max (length d1) (length d2)"
proof -
  define n where "n = max (length d1) (length d2)"
  from assms(3) have n: "n < 11" by (simp add: n_def)
  obtain h where h: "encode_hash (StringToNumber s1) (StringToNumber s2)
      (Some (real (SIGFIG_HASH_LENGTH ! n))) = Some h" "length h = SIGFIG_HASH_LENGTH ! n"
    using encode_hash_total [of "StringToNumber s1" "StringToNumber s2" "SIGFIG_HASH_LENGTH ! n"]
    by blast
  have "encode StringToNumber (JString s1) (JString s2) (JString ''auto'') = Some (Inr h)"
    using assms(1,2) n h(1)
    by (simp add: encode_def ENCODE_AUTO_def typeof_number_def decSigFigs_def Let_def
        n_def [symmetric] SIGFIG_HASH_LENGTH_def)
  then show ?thesis
    using h(2) by (simp add: n_def SIGFIG_HASH_LENGTH_def)
qed

section \<open>Precision and automatic length: claims\<close>

text \<open>
  Claim C4. \<open>setPrecision\<close> follows the step table, its value lies between 1 and 9 for
  every argument (NaN included), it does not increase when the radius increases, and
  it is 9 at 0.004 and 1 at 2000.
\<close>

theorem setPrecision_table:
  "setPrecision (Some r) =
     (if r \<le> 0.00477 then 9 else if r \<le> 0.0382 then 8 else if r \<le> 0.153 then 7
      else if r \<le> 1.22 then 6 else if r \<le> 4.89 then 5 else if r \<le> 39.1 then 4
      else if r \<le> 156 then 3 else if r \<le> 1250 then 2 else 1) \<and>
   1 \<le> setPrecision km \<and> setPrecision km \<le> 9 \<and>
   (r1 \<le> r2 \<longrightarrow> setPrecision (Some r2) \<le> setPrecision (Some r1)) \<and>
   setPrecision (Some 0.004) = 9 \<and> setPrecision (Some 2000) = 1"
  by (simp add: setPrecision_def num_le_def split: option.splits)

theorem setPrecision_table_witness:
  "(1 :: real) \<le> 200 \<and> setPrecision (Some 200) \<le> setPrecision (Some 1) \<and>
   setPrecision (Some 200) = 2 \<and> setPrecision (Some 1) = 6"
  using setPrecision_table [of 200 "Some 1" 1 200] setPrecision_table [of 1 "Some 1" 1 200]
  by simp

text \<open>
  Claim C9 says that two strings in automatic mode give a hash whose length the table
  assigns to the number of decimal digits. For coordinates written without a decimal
  point, which have 0 decimal digits, \<open>split(".")[1]\<close> is \<open>undefined\<close> and the call
  ends in a TypeError instead of the hash of length 0. (The lemmas
  \<open>encode_auto_number\<close> and \<open>encode_auto_strings\<close> above cover the other inputs.)
\<close>

theorem encode_auto_without_decimal_point:
  "encode StringToNumber (JString ''12'') (JString ''13'') (JString ''auto'') = Some (Inl TypeError)"
  by (simp add: encode_def ENCODE_AUTO_def typeof_number_def decSigFigs_def)

section \<open>The search: lemmas\<close>

lemma js_map_Inr: "(\<And>x. x \<in> set xs \<Longrightarrow> f x = Inr (g x)) \<Longrightarrow> js_map f xs = Inr (map g xs)"
  by (induction xs) simp_all

lemma js_map_Inr_D: "js_map f xs = Inr ys \<Longrightarrow> map f xs = map Inr ys"
  by (induction xs arbitrary: ys) (auto split: sum.splits)

lemma js_map_Inl: "js_map f xs = Inl e \<Longrightarrow> \<exists>x\<in>set xs. f x = Inl e"
  by (induction xs) (auto split: sum.splits)

lemma js_filter_from_Inr:
  "js_filter_from pos f xs arr = Inr ys \<Longrightarrow>
     ys = map snd (filter (\<lambda>(i, x). f x i arr = Inr True) (enumerate pos xs)) \<and>
     (\<forall>(i, x)\<in>set (enumerate pos xs). \<exists>b. f x i arr = Inr b)"
proof (induction xs arbitrary: pos ys)
  case Nil
  then show ?case by simp
next
  case (Cons x xs)
  from Cons.prems obtain b zs where b: "f x pos arr = Inr b"
    and zs: "js_filter_from (Suc pos) f xs arr = Inr zs" and ys: "ys = (if b then x # zs else zs)"
    by (auto split: sum.splits)
  from Cons.IH [OF zs] b ys show ?case by auto
qed

lemma js_filter_from_total:
  "(\<And>i x. (i, x) \<in> set (enumerate pos xs) \<Longrightarrow> \<exists>b. f x i arr = Inr b) \<Longrightarrow>
   \<exists>ys. js_filter_from pos f xs arr = Inr ys"
proof (induction xs arbitrary: pos)
  case Nil
  then show ?case by simp
next
  case (Cons x xs)
  from Cons.prems [of pos x] obtain b where b: "f x pos arr = Inr b" by auto
  have "\<exists>ys. js_filter_from (Suc pos) f xs arr = Inr ys"
    by (rule Cons.IH) (use Cons.prems in auto)
  with b show ?case by auto
qed

lemma js_filter_from_TypeError:
  assumes "x \<in> set xs" and "\<And>i. f x i arr = Inl TypeError"
    and "\<And>y i e. f y i arr = Inl e \<Longrightarrow> e = TypeError"
  shows "js_filter_from pos f xs arr = Inl TypeError"
  using assms(1)
proof (induction xs arbitrary: pos)
  case Nil
  then show ?case by simp
next
  case (Cons y ys)
  show ?case
  proof (cases "f y pos arr")
    case (Inl e)
    with assms(3) show ?thesis by auto
  next
    case (Inr b)
    with assms(2) have "x \<noteq> y" by auto
    with Cons.prems have "x \<in> set ys" by simp
    from Cons.IH [OF this] Inr show ?thesis by simp
  qed
qed





lemma search_area_total: "\<exists>area. search_area center radius = Some area \<and> length area = 9"
proof -
  obtain h where h: "encode_hash (fst center) (snd center) (Some (real geohashLength)) = Some h"
    using encode_hash_total [of "fst center" "snd center" geohashLength] by blast
  obtain ns where ns: "neighbors (take (setPrecision radius) h) = Some ns"
      "map length ns = replicate 8 (length (take (setPrecision radius) h))"
    using neighbors_eight [of "take (setPrecision radius) h"] by blast
  have "length (map length ns) = 8" by (simp only: ns(2) length_replicate)
  then have "length ns = 8" by simp
  with h ns(1) show ?thesis
    by (simp add: search_area_def Let_def)
qed

lemma getGeoPoint_resolve: "getGeoPoint v field = property (resolve v field) ''geopoint''"
  by (simp add: getGeoPoint_def resolve_def Let_def)

lemma property_error: "property x key = Inl e \<Longrightarrow> e = TypeError"
  by (auto simp: property_def split: jsval.splits)

lemma true_distance_error: "true_distance f center field v = Inl e \<Longrightarrow> e = TypeError"
  by (auto simp: true_distance_def latitude_longitude_def getGeoPoint_resolve
      split: sum.splits prod.splits dest: property_error)

lemma true_distance_Inl_iff:
  "true_distance f center field v = Inl TypeError \<longleftrightarrow> no_geopoint v field"
  by (cases "resolve v field")
     (auto simp: true_distance_def latitude_longitude_def getGeoPoint_resolve no_geopoint_def
        nullish_def property_def split: sum.splits prod.splits jsval.splits)


lemma performSearch_reduced:
  assumes "flattened fsQuery center radius field = Some (Inr flat)"
  shows "performSearch f fsQuery center radius field =
     Some (case js_filter (filter_callback f center (num_op (*) radius (Some 1.01)) field) flat of
             Inl e \<Rightarrow> Inl e
           | Inr filtered \<Rightarrow>
              (case js_map (map_callback f center field) filtered of
                 Inl e \<Rightarrow> Inl e
               | Inr mapped \<Rightarrow> Inr (js_sort sort_callback mapped)))"
  by (simp add: performSearch_def assms Let_def)

lemma filter_callback_error:
  "filter_callback f center buf field v pos arr = Inl e \<Longrightarrow> e = TypeError"
  by (auto simp: filter_callback_def split: sum.splits dest: true_distance_error)

lemma filter_callback_no_geopoint:
  "no_geopoint v field \<Longrightarrow> filter_callback f center buf field v pos arr = Inl TypeError"
  using true_distance_Inl_iff [of f center field v] by (simp add: filter_callback_def)

lemma performSearch_TypeError:
  assumes "flattened fsQuery center radius field = Some (Inr flat)"
    and "v \<in> set flat" and "no_geopoint v field"
  shows "performSearch f fsQuery center radius field = Some (Inl TypeError)"
proof -
  have "js_filter (filter_callback f center (num_op (*) radius (Some 1.01)) field) flat =
          Inl TypeError"
    unfolding js_filter_def
    by (rule js_filter_from_TypeError [OF assms(2)])
       (simp_all add: filter_callback_no_geopoint [OF assms(3)] filter_callback_error)
  then show ?thesis
    by (simp add: performSearch_reduced [OF assms(1)])
qed

lemma true_distance_Inr:
  "\<not> no_geopoint v field \<Longrightarrow> \<exists>d. true_distance f center field v = Inr d"
  using true_distance_Inl_iff [of f center field v] true_distance_error [of f center field v]
  by (cases "true_distance f center field v") auto

lemma map_callback_annotate:
  "\<not> no_geopoint v field \<Longrightarrow> map_callback f center field v = Inr (annotate f center field v)"
  using true_distance_Inr [of v field f center]
  by (auto simp: map_callback_def annotate_def)

lemma performSearch_filtered:
  assumes "flattened fsQuery center radius field = Some (Inr flat)"
    and "\<forall>v\<in>set flat. \<not> no_geopoint v field"
  shows "performSearch f fsQuery center radius field =
     Some (Inr (js_sort sort_callback (map (annotate f center field)
       (map snd (filter (\<lambda>(pos, v). filter_callback f center (num_op (*) radius (Some 1.01))
                                    field v pos flat = Inr True)
                  (enumerate 0 flat))))))"
proof -
  define cb where "cb = filter_callback f center (num_op (*) radius (Some 1.01)) field"
  have "\<exists>b. cb x i flat = Inr b" if "(i, x) \<in> set (enumerate 0 flat)" for i x
  proof -
    from that have "x \<in> set flat" by (auto simp: in_set_enumerate_eq)
    with assms(2) obtain d where "true_distance f center field x = Inr d"
      using true_distance_Inr by blast
    then show ?thesis by (simp add: cb_def filter_callback_def)
  qed
  then obtain ys where ys: "js_filter cb flat = Inr ys"
    unfolding js_filter_def using js_filter_from_total [of 0 flat cb flat] by blast
  then have ys_eq: "ys = map snd (filter (\<lambda>(i, x). cb x i flat = Inr True) (enumerate 0 flat))"
    unfolding js_filter_def by (auto dest: js_filter_from_Inr)
  then have "set ys \<subseteq> set flat"
    by (auto simp: in_set_enumerate_eq)
  with assms(2) have "js_map (map_callback f center field) ys = Inr (map (annotate f center field) ys)"
    by (intro js_map_Inr map_callback_annotate) auto
  moreover have "performSearch f fsQuery center radius field =
     Some (case js_filter cb flat of
             Inl e \<Rightarrow> Inl e
           | Inr filtered \<Rightarrow>
              (case js_map (map_callback f center field) filtered of
                 Inl e \<Rightarrow> Inl e
               | Inr mapped \<Rightarrow> Inr (js_sort sort_callback mapped)))"
    unfolding cb_def by (rule performSearch_reduced [OF assms(1)])
  ultimately have "performSearch f fsQuery center radius field =
      Some (Inr (js_sort sort_callback (map (annotate f center field) ys)))"
    using ys by simp
  then show ?thesis
    unfolding ys_eq cb_def .
qed









lemma set_insort_by: "set (insort_by cmp x ys) = insert x (set ys)"
  by (induction ys) auto

lemma set_js_sort: "set (js_sort cmp xs) = set xs"
  by (induction xs) (simp_all add: js_sort_def set_insort_by)







lemma doc_annotate: "doc (annotate f center field v) = v"
  by (simp add: annotate_def)


lemma foldl_append_concat: "foldl (\<lambda>acc curr. acc @ curr) a xss = a @ concat xss"
  by (induction xss arbitrary: a) simp_all

lemma flattened_constant:
  assumes "\<And>p a b. fsQuery p a b = Inr snaps"
  shows "\<exists>flat. flattened fsQuery center radius field = Some (Inr flat) \<and>
               set flat = set (snapToData snaps)"
proof -
  obtain area where area: "search_area center radius = Some area" "length area = 9"
    using search_area_total by blast
  have "js_map (\<lambda>hash. case queryByGeohash fsQuery hash field of
                          Inl e \<Rightarrow> Inl e | Inr snap \<Rightarrow> Inr (snapToData snap)) area =
        Inr (map (\<lambda>hash. snapToData snaps) area)"
    by (rule js_map_Inr) (simp add: queryByGeohash_def Let_def assms)
  moreover have "foldl (\<lambda>acc curr. acc @ curr) [] (map (\<lambda>hash. snapToData snaps) area) =
                 concat (map (\<lambda>hash. snapToData snaps) area)"
    by (simp add: foldl_append_concat)
  moreover have "set (concat (map (\<lambda>hash. snapToData snaps) area)) = set (snapToData snaps)"
    using area(2) by (cases area) auto
  ultimately show ?thesis
    using area(1) by (simp add: flattened_def)
qed


lemma snapToData_Cons: "snapToData (x # xs) = snapToData [x] @ snapToData xs"
  by (simp add: snapToData_def)





lemma bare_doc: "snapToData [\<lparr>snap_id = ''a'', snap_data = []\<rparr>] = [[(''id'', JString ''a'')]]"
  by (simp add: snapToData_def AList.merge_def)

lemma blank_doc:
  "snapToData [\<lparr>snap_id = ''a'', snap_data = [(''geo'', JObject [(''geopoint'', JObject [])])]\<rparr>] =
     [[(''id'', JString ''a''), (''geo'', JObject [(''geopoint'', JObject [])])]]"
  by (simp add: snapToData_def AList.merge_def)

lemma flattened_returns: "\<exists>r. flattened fsQuery center radius field = Some r"
  using search_area_total [of center radius] by (auto simp: flattened_def)

lemma performSearch_returns: "\<exists>r. performSearch f fsQuery center radius field = Some r"
  using flattened_returns [of fsQuery center radius field] by (auto simp: performSearch_def)

section \<open>The search: claims\<close>

text \<open>
  Claim C2, as stated: a record on which the field path does not resolve to a GeoData
  value is left out of the result and raises no error. The store \<open>bare_store\<close> holds one
  document without fields; on it \<open>getGeoPoint\<close> reads \<open>geopoint\<close> of \<open>undefined\<close>, and
  the search ends in a TypeError instead of the empty list.
\<close>

theorem performSearch_missing_field_counterexample:
  "snapToData [\<lparr>snap_id = ''a'', snap_data = []\<rparr>] = [[(''id'', JString ''a'')]] \<and>
   getGeoPoint [(''id'', JString ''a'')] ''geo'' = Inl TypeError \<and>
   performSearch (\<lambda>s. None) bare_store (Some 0, Some 0) (Some 1) ''geo'' = Some (Inl TypeError)"
proof -
  obtain flat where flat: "flattened bare_store (Some 0, Some 0) (Some 1) ''geo'' = Some (Inr flat)"
      and set_flat: "set flat = {[(''id'', JString ''a'')]}"
    using flattened_constant [of bare_store _ "(Some 0, Some 0)" "Some 1" "''geo''",
        OF bare_store_def] unfolding bare_doc by auto
  have n: "no_geopoint [(''id'', JString ''a'')] ''geo''"
    by (simp add: no_geopoint_def resolve_def own_property_def nullish_def)
  have "performSearch (\<lambda>s. None) bare_store (Some 0, Some 0) (Some 1) ''geo'' = Some (Inl TypeError)"
    by (rule performSearch_TypeError [OF flat _ n]) (simp add: set_flat)
  moreover have "getGeoPoint [(''id'', JString ''a'')] ''geo'' = Inl TypeError"
    by (simp add: getGeoPoint_def own_property_def property_def)
  ultimately show ?thesis
    by (simp add: bare_doc)
qed

text \<open>
  Claim C2, amended. When the range queries have succeeded: if on some candidate record
  the field path resolves to \<open>undefined\<close> or \<open>null\<close>, or to a value whose \<open>geopoint\<close>
  is \<open>undefined\<close> or \<open>null\<close>, the search fails with a TypeError; if there is no such
  record, the search returns a list, and a record whose geopoint gives no distance (NaN,
  its latitude or longitude not being numbers) is left out of that list without an error.
\<close>

theorem performSearch_missing_geopoint:
  assumes "flattened fsQuery center radius field = Some (Inr flat)"
  shows "((\<exists>v\<in>set flat. no_geopoint v field) \<longrightarrow>
            performSearch f fsQuery center radius field = Some (Inl TypeError)) \<and>
         ((\<forall>v\<in>set flat. \<not> no_geopoint v field) \<longrightarrow>
            (\<exists>res. performSearch f fsQuery center radius field = Some (Inr res) \<and>
               (\<forall>v\<in>set flat. true_distance f center field v = Inr None \<longrightarrow> v \<notin> doc ` set res)))"
proof (intro conjI impI)
  assume "\<exists>v\<in>set flat. no_geopoint v field"
  then show "performSearch f fsQuery center radius field = Some (Inl TypeError)"
    using performSearch_TypeError [OF assms] by blast
next
  assume r: "\<forall>v\<in>set flat. \<not> no_geopoint v field"
  define ys where "ys = map snd (filter (\<lambda>(pos, v).
      filter_callback f center (num_op (*) radius (Some 1.01)) field v pos flat = Inr True)
      (enumerate 0 flat))"
  have res: "performSearch f fsQuery center radius field =
      Some (Inr (js_sort sort_callback (map (annotate f center field) ys)))"
    unfolding ys_def by (rule performSearch_filtered [OF assms r])
  have "v \<notin> doc ` set (js_sort sort_callback (map (annotate f center field) ys))"
    if "true_distance f center field v = Inr None" for v
  proof
    assume "v \<in> doc ` set (js_sort sort_callback (map (annotate f center field) ys))"
    then have "v \<in> set ys"
      by (auto simp: set_js_sort doc_annotate)
    then obtain pos where
      "filter_callback f center (num_op (*) radius (Some 1.01)) field v pos flat = Inr True"
      unfolding ys_def by auto
    with that show False
      by (simp add: filter_callback_def num_le_def)
  qed
  with res show "\<exists>res. performSearch f fsQuery center radius field = Some (Inr res) \<and>
               (\<forall>v\<in>set flat. true_distance f center field v = Inr None \<longrightarrow> v \<notin> doc ` set res)"
    by blast
qed

theorem performSearch_missing_geopoint_witness:
  "performSearch (\<lambda>s. None) bare_store (Some 0, Some 0) (Some 1) ''geo.point'' =
     Some (Inl TypeError) \<and>
   (\<exists>res. performSearch (\<lambda>s. None) blank_store (Some 0, Some 0) (Some 1) ''geo'' = Some (Inr res) \<and>
      [(''id'', JString ''a''), (''geo'', JObject [(''geopoint'', JObject [])])] \<notin> doc ` set res)"
proof -
  obtain flat where flat:
      "flattened bare_store (Some 0, Some 0) (Some 1) ''geo.point'' = Some (Inr flat)"
      and set_flat: "set flat = {[(''id'', JString ''a'')]}"
    using flattened_constant [of bare_store _ "(Some 0, Some 0)" "Some 1" "''geo.point''",
        OF bare_store_def] unfolding bare_doc by auto
  have n: "no_geopoint [(''id'', JString ''a'')] ''geo.point''"
    by (simp add: no_geopoint_def resolve_def getNestedKey_def own_property_def nullish_def)
  have 1: "performSearch (\<lambda>s. None) bare_store (Some 0, Some 0) (Some 1) ''geo.point'' =
     Some (Inl TypeError)"
    using performSearch_missing_geopoint [OF flat, of "\<lambda>s. None"] n set_flat by simp
  define v where "v = [(''id'', JString ''a''), (''geo'', JObject [(''geopoint'', JObject [])])]"
  obtain flat' where flat': "flattened blank_store (Some 0, Some 0) (Some 1) ''geo'' = Some (Inr flat')"
      and set_flat': "set flat' = {v}"
    using flattened_constant [of blank_store _ "(Some 0, Some 0)" "Some 1" "''geo''",
        OF blank_store_def] unfolding blank_doc v_def by auto
  have r: "\<not> no_geopoint v ''geo''"
    by (simp add: v_def no_geopoint_def resolve_def own_property_def nullish_def)
  have "latitude_longitude (getGeoPoint v ''geo'') = Inr (JUndefined, JUndefined)"
    by (simp add: v_def latitude_longitude_def getGeoPoint_def property_def own_property_def)
  then have d: "true_distance (\<lambda>s. None) (Some 0, Some 0) ''geo'' v = Inr None"
    by (simp add: true_distance_def distance_NaN)
  from performSearch_missing_geopoint [OF flat', of "\<lambda>s. None"] r d set_flat'
  have "\<exists>res. performSearch (\<lambda>s. None) blank_store (Some 0, Some 0) (Some 1) ''geo'' = Some (Inr res) \<and>
      v \<notin> doc ` set res"
    by simp
  with 1 show ?thesis unfolding v_def by simp
qed



end
